theory Spec2Isabelle
  imports Main "HOL-Library.Sublist"
begin

section \<open>Python strings\<close>

text \<open>
  A Python \<open>str\<close> is a sequence of Unicode code points. It is modelled as a list of
  natural numbers, one per code point; \<open>str\<close> turns an ASCII literal into such a list.
\<close>

type_synonym pystr = "nat list"

definition str :: "string \<Rightarrow> pystr" where
  "str s = map of_char s"

text \<open>
  The characters \<open>str.strip()\<close> removes and the regular expression class \<open>\s\<close> matches:
  the code points for which \<open>str.isspace()\<close> holds.
\<close>

definition is_space :: "nat \<Rightarrow> bool" where
  "is_space c \<longleftrightarrow>
     (9 \<le> c \<and> c \<le> 13) \<or> (28 \<le> c \<and> c \<le> 32) \<or> c = 133 \<or> c = 160 \<or> c = 5760 \<or>
     (8192 \<le> c \<and> c \<le> 8202) \<or> c = 8232 \<or> c = 8233 \<or> c = 8239 \<or> c = 8287 \<or> c = 12288"

text \<open>\<open>s.strip()\<close>: leading and trailing whitespace removed.\<close>

definition py_strip :: "pystr \<Rightarrow> pystr" where
  "py_strip s = rev (dropWhile is_space (rev (dropWhile is_space s)))"

text \<open>\<open>sub in s\<close> for two strings: \<open>sub\<close> occurs in \<open>s\<close> as a contiguous run.\<close>

fun contains :: "pystr \<Rightarrow> pystr \<Rightarrow> bool" where
  "contains sub [] = (sub = [])"
| "contains sub (c # cs) = (prefix sub (c # cs) \<or> contains sub cs)"

section \<open>CSV parsing (AP section only)\<close>

text \<open>
  The dictionary \<open>parse_airodump_csv\<close> builds for one access point has exactly the seven
  keys below, all with string values.
\<close>

record ap =
  BSSID :: pystr
  SSID :: pystr
  Channel :: pystr
  Privacy :: pystr
  Cipher :: pystr
  Auth :: pystr
  Power :: pystr

text \<open>
  Every failure modelled here is an instance of Python's \<open>Exception\<close> (an \<open>OSError\<close> from
  the operating system, a \<open>csv.Error\<close> from the reader, ...), which is what the
  source's \<open>except Exception\<close> clauses catch. The string is the exception's message.
\<close>

datatype exn = Exception string

text \<open>
  What the file system holds at a path when \<open>parse_airodump_csv\<close> looks at it:
  nothing (\<open>os.path.exists\<close> is false); a file that \<open>open\<close> fails on; or a file that opens,
  from which \<open>csv.reader\<close> yields the given rows, each a list of fields, and after the
  last of them either stops (end of file) or raises the given exception (an I/O error
  in the middle of the file, a \<open>csv.Error\<close>).
\<close>

datatype file_state =
    Absent
  | OpenFails exn
  | Rows "pystr list list" "exn option"

text \<open>The file-system calls a run performs are recorded, with their path.\<close>

datatype fs_access = PathExists pystr | OpenFile pystr

text \<open>The dictionary appended for an accepted row (source lines 162 to 177).\<close>

definition ap_of_row :: "pystr list \<Rightarrow> ap" where
  "ap_of_row row =
     \<lparr> BSSID = py_strip (row ! 0),
       SSID = (if py_strip (row ! 13) = [] then str ''Hidden'' else py_strip (row ! 13)),
       Channel = py_strip (row ! 3),
       Privacy = py_strip (row ! 5),
       Cipher = py_strip (row ! 6),
       Auth = py_strip (row ! 7),
       Power = py_strip (row ! 8) \<rparr>"

text \<open>
  The loop \<open>for row in reader\<close> (source lines 148 to 177), from the rows not yet read, the
  way the reader ends, the flag \<open>ap_header_seen\<close> and the list \<open>nets\<close> built so far. The
  result is \<open>nets\<close> when the loop is left, and the exception that left it, if one did:
  \<open>break\<close> at the station header leaves the loop without reading further, so an error
  later in the file is never met. \<open>row ! 0\<close> is only evaluated for a non-empty row, and
  the fields up to 13 only for a row of more than 13 fields, as in the source.
\<close>

fun for_rows :: "pystr list list \<Rightarrow> exn option \<Rightarrow> bool \<Rightarrow> ap list \<Rightarrow> ap list \<times> exn option" where
  "for_rows [] fin ap_header_seen nets = (nets, fin)"
| "for_rows (row # rest) fin ap_header_seen nets =
     (if row = [] then for_rows rest fin ap_header_seen nets
      else if py_strip (row ! 0) = str ''BSSID'' then for_rows rest fin True nets
      else if py_strip (row ! 0) = str ''Station MAC'' then (nets, None)
      else if ap_header_seen \<and> 13 < length row
        then for_rows rest fin ap_header_seen (nets @ [ap_of_row row])
      else for_rows rest fin ap_header_seen nets)"

text \<open>
  The body of the \<open>try\<close> statement (source lines 145 to 177): \<open>open\<close>, then the loop. It
  gives the list \<open>nets\<close> at the point where the body ends and the exception that ended it,
  if any.
\<close>

definition read_ap_table :: "file_state \<Rightarrow> ap list \<times> exn option" where
  "read_ap_table f =
     (case f of
        Absent \<Rightarrow> ([], Some (Exception ''FileNotFoundError''))
      | OpenFails e \<Rightarrow> ([], Some e)
      | Rows rows fin \<Rightarrow> for_rows rows fin False [])"

text \<open>
  \<open>parse_airodump_csv(ap_csv_path)\<close>. The argument is \<open>None\<close> or a string; \<open>fs\<close> is the file
  system. The result is the value returned or the exception raised, with the file-system
  calls made. The guard of line 141 returns before any call when the path is \<open>None\<close> or
  empty (both are false in Python), and after \<open>os.path.exists\<close> when there is no file.
  \<open>except Exception: pass\<close> drops whatever the body raised, and \<open>nets\<close> is returned as
  it is then.
\<close>

definition parse_airodump_csv ::
  "(pystr \<Rightarrow> file_state) \<Rightarrow> pystr option \<Rightarrow> (exn + ap list) \<times> fs_access list" where
  "parse_airodump_csv fs ap_csv_path =
     (case ap_csv_path of
        None \<Rightarrow> (Inr [], [])
      | Some p \<Rightarrow>
          if p = [] then (Inr [], [])
          else if fs p = Absent then (Inr [], [PathExists p])
          else
            (case read_ap_table (fs p) of
               (nets, None) \<Rightarrow> (Inr nets, [PathExists p, OpenFile p])
             | (nets, Some e) \<Rightarrow> (Inr nets, [PathExists p, OpenFile p])))"

text \<open>
  What the specification means by trimming: \<open>t\<close> is \<open>s\<close> without its surrounding
  whitespace when \<open>s\<close> is \<open>t\<close> between two runs of whitespace and \<open>t\<close> neither starts nor
  ends with whitespace. This is the specification's wording, kept apart from \<open>py_strip\<close>,
  which is the source's \<open>strip()\<close>.
\<close>

definition trimmed_of :: "pystr \<Rightarrow> pystr \<Rightarrow> bool" where
  "trimmed_of s t \<longleftrightarrow>
     (\<exists>a b. s = a @ t @ b \<and> (\<forall>c\<in>set a. is_space c) \<and> (\<forall>c\<in>set b. is_space c)) \<and>
     (t = [] \<or> (\<not> is_space (hd t) \<and> \<not> is_space (last t)))"

subsection \<open>A capture file\<close>

text \<open>
  The rows of a small capture file in the layout of the capture tool: a blank row, the
  header of the access-point table, two access points (the second with an undisclosed
  name), a truncated row, the header of the station table and two stations.
\<close>

definition ex_path :: pystr where
  "ex_path = str ''/tmp/wifi_logs/scan-01.csv''"

definition ex_header :: "pystr list" where
  "ex_header = [str ''BSSID'', str '' First time seen'', str '' Last time seen'', str '' channel'',
     str '' Speed'', str '' Privacy'', str '' Cipher'', str '' Authentication'', str '' Power'',
     str '' # beacons'', str '' # IV'', str '' LAN IP'', str '' ID-length'', str '' ESSID'',
     str '' Key'']"

definition ex_ap_home :: "pystr list" where
  "ex_ap_home = [str ''AA:BB:CC:DD:EE:01'', str '' 2024-01-01 10:00:00'',
     str '' 2024-01-01 10:00:09'', str ''  6'', str ''  54'', str '' WPA2'', str '' CCMP'',
     str '' PSK'', str '' -40'', str ''       10'', str ''        0'', str ''   0.  0.  0.  0'',
     str ''   4'', str '' Home'', str '' '']"

definition ex_ap_hidden :: "pystr list" where
  "ex_ap_hidden = [str ''AA:BB:CC:DD:EE:02'', str '' 2024-01-01 10:00:01'',
     str '' 2024-01-01 10:00:08'', str '' 11'', str ''  54'', str '' OPN'', str '' '',
     str ''   '', str '' -71'', str ''        3'', str ''        0'', str ''   0.  0.  0.  0'',
     str ''   0'', str '' '', str '' '']"

definition ex_short :: "pystr list" where
  "ex_short = [str ''AA:BB:CC:DD:EE:03'', str '' 2024-01-01 10:00:02'', str '' 2024-01-01'']"

definition ex_station_header :: "pystr list" where
  "ex_station_header = [str ''Station MAC'', str '' First time seen'', str '' Last time seen'',
     str '' Power'', str '' # packets'', str '' BSSID'', str '' Probed ESSIDs'']"

definition ex_station :: "pystr list" where
  "ex_station = [str ''11:22:33:44:55:66'', str '' 2024-01-01 10:00:03'',
     str '' 2024-01-01 10:00:07'', str '' -55'', str ''       12'', str '' AA:BB:CC:DD:EE:01'',
     []]"

definition ex_rows :: "pystr list list" where
  "ex_rows = [[], ex_header, ex_ap_home, ex_ap_hidden, ex_short, ex_station_header, ex_station,
     ex_station]"

definition ex_fs :: "pystr \<Rightarrow> file_state" where
  "ex_fs p = (if p = ex_path then Rows ex_rows None else Absent)"

text \<open>The same file when reading fails after the first access point.\<close>

definition ex_fs_read_error :: "pystr \<Rightarrow> file_state" where
  "ex_fs_read_error p =
     (if p = ex_path then Rows [[], ex_header, ex_ap_home] (Some (Exception ''OSError''))
      else Absent)"

text \<open>A file in which the first access point is listed twice.\<close>

definition ex_fs_repeated :: "pystr \<Rightarrow> file_state" where
  "ex_fs_repeated p =
     (if p = ex_path then Rows [[], ex_header, ex_ap_home, ex_ap_hidden, ex_ap_home] None
      else Absent)"

section \<open>Interface helpers\<close>

text \<open>
  \<open>subprocess.run\<close> either raises (the program cannot be started) or gives a completed
  process, of which the source reads the return code and the standard output.
\<close>

record completed =
  returncode :: int
  stdout :: pystr

text \<open>The lines the program prints, by the place in the source that prints them.\<close>

datatype message =
    NoInterface
  | AlreadyMonitor pystr
  | Enabling pystr
  | Enabled pystr
  | Restoring "pystr option"
  | Restored "pystr option"
  | Scanning pystr pystr
  | Stopping
  | NoNetworks
  | PdfFailed exn
  | Done

text \<open>
  What a run does is recorded as a trace: the calls of the four lifecycle functions and of
  the signal handler, with their arguments, and every effect on the outside world
  (commands run, process started, signals sent, sleeps, file-system calls, the calls of
  the live view and of the report generator, lines printed).
\<close>

datatype event =
    Call_enable_monitor_mode pystr
  | Call_disable_monitor_mode "pystr option"
  | Call_start_airodump pystr pystr
  | Call_stop_airodump
  | Call_on_sigint
  | Run "pystr list"
  | Popen "pystr list"
  | Getpgid nat
  | Killpg nat
  | Sleep nat
  | Signal_sigint
  | Makedirs pystr
  | Fs fs_access
  | Print_live_table "ap list"
  | Generate_pdf "ap list" "pystr option" "pystr option"
  | Print message

text \<open>
  The outside world. The host is a machine of some state type \<open>'h\<close>: \<open>exec\<close> runs a command
  on it (\<open>subprocess.run\<close> with \<open>check=False\<close>, which raises only when the program cannot
  be started) and gives the next host state. The other fields are the outcomes of the
  remaining calls: the two \<open>strftime\<close> strings, \<open>os.makedirs\<close>, the interface selected by
  \<open>get_wifi_interface\<close> (which is not examined here: its result is an input),
  \<open>subprocess.Popen\<close> (an exception or the child's pid), \<open>os.getpgid\<close>, the files present
  at each tick of the clock, whether SIGINT is delivered during the sleep that starts at a
  tick, and whether the live view (\<open>print_live_table\<close>) and the report generator
  (\<open>generate_pdf\<close>), the two rendering collaborators, raise.
\<close>

record 'h env =
  exec :: "'h \<Rightarrow> pystr list \<Rightarrow> (exn + completed) \<times> 'h"
  now_date :: pystr
  now_time :: pystr
  makedirs :: "exn option"
  wifi_interface :: "exn + pystr option"
  popen :: "exn + nat"
  getpgid :: "exn + nat"
  files :: "nat \<Rightarrow> pystr \<Rightarrow> file_state"
  sigint :: "nat \<Rightarrow> bool"
  live_table :: "nat \<Rightarrow> exn option"
  generate_pdf :: "exn option"

text \<open>
  The module's global variables (source lines 28 to 32), the host, a clock that counts the
  polling sleeps, and the trace.
\<close>

record 'h state =
  running :: bool
  airodump_proc :: "nat option"
  interface_used :: "pystr option"
  output_dir :: "pystr option"
  csv_path :: "pystr option"
  host :: 'h
  clock :: nat
  trace :: "event list"

definition initial :: "'h \<Rightarrow> 'h state" where
  "initial h = \<lparr> running = True, airodump_proc = None, interface_used = None,
     output_dir = None, csv_path = None, host = h, clock = 0, trace = [] \<rparr>"

definition BASE_DIR :: pystr where
  "BASE_DIR = str ''/home/dheeraj/Documents/PROJECTS/Wi-Fi Security Analysis/wifi_logs''"

definition REFRESH_SEC :: nat where
  "REFRESH_SEC = 3"

definition AIRO_BANDS :: "pystr list" where
  "AIRO_BANDS = [str ''bg'']"

definition log :: "event \<Rightarrow> 'h state \<Rightarrow> 'h state" where
  "log e s = s\<lparr>trace := trace s @ [e]\<rparr>"

text \<open>Sequencing: an exception ends the sequence, a value is passed on.\<close>

definition and_then ::
  "(exn + 'a) \<times> 's \<Rightarrow> ('a \<Rightarrow> 's \<Rightarrow> (exn + 'b) \<times> 's) \<Rightarrow> (exn + 'b) \<times> 's" where
  "and_then m f = (case m of (Inl e, s) \<Rightarrow> (Inl e, s) | (Inr a, s) \<Rightarrow> f a s)"

definition run_cmd :: "'h env \<Rightarrow> pystr list \<Rightarrow> 'h state \<Rightarrow> (exn + completed) \<times> 'h state" where
  "run_cmd env cmd s =
     (case exec env (host s) cmd of (r, h) \<Rightarrow> (r, (log (Run cmd) s)\<lparr>host := h\<rparr>))"

text \<open>
  \<open>re.split(r"\n(?=Interface\s)", out)\<close>: the text is cut at every newline that is followed
  by \<open>Interface\<close> and a whitespace character; the newline is dropped.
\<close>

definition starts_interface :: "pystr \<Rightarrow> bool" where
  "starts_interface cs \<longleftrightarrow>
     prefix (str ''Interface'') cs \<and> (case drop 9 cs of [] \<Rightarrow> False | c # _ \<Rightarrow> is_space c)"

fun split_blocks :: "pystr \<Rightarrow> pystr \<Rightarrow> pystr list" where
  "split_blocks cur [] = [rev cur]"
| "split_blocks cur (c # cs) =
     (if c = 10 \<and> starts_interface cs then rev cur # split_blocks [] cs
      else split_blocks (c # cur) cs)"

text \<open>
  The loop of source lines 81 to 84: some block of the output of \<open>iw dev\<close> contains both
  \<open>Interface <iface>\<close> and \<open>type monitor\<close>.
\<close>

definition already_monitor :: "pystr \<Rightarrow> pystr \<Rightarrow> bool" where
  "already_monitor iface out =
     list_ex (\<lambda>blk. contains (str ''Interface '' @ iface) blk \<and> contains (str ''type monitor'') blk)
       (split_blocks [] (py_strip out))"

definition enable_monitor_mode :: "'h env \<Rightarrow> pystr \<Rightarrow> 'h state \<Rightarrow> (exn + pystr) \<times> 'h state" where
  "enable_monitor_mode env iface s0 =
     and_then (run_cmd env [str ''iw'', str ''dev''] (log (Call_enable_monitor_mode iface) s0))
       (\<lambda>res s.
          if already_monitor iface (stdout res)
          then (Inr iface, log (Print (AlreadyMonitor iface)) s)
          else
            and_then (run_cmd env [str ''sudo'', str ''ip'', str ''link'', str ''set'', iface,
                        str ''down''] (log (Print (Enabling iface)) s))
              (\<lambda>_ s.
            and_then (run_cmd env [str ''sudo'', str ''iw'', iface, str ''set'', str ''type'',
                        str ''monitor''] s)
              (\<lambda>res s.
            and_then (if returncode res \<noteq> 0
                      then run_cmd env [str ''sudo'', str ''iw'', iface, str ''set'',
                             str ''monitor'', str ''none''] s
                      else (Inr res, s))
              (\<lambda>_ s.
            and_then (run_cmd env [str ''sudo'', str ''ip'', str ''link'', str ''set'', iface,
                        str ''up''] s)
              (\<lambda>_ s. (Inr iface, log (Print (Enabled iface)) s))))))"

text \<open>
  \<open>disable_monitor_mode(iface)\<close>. The argument is the global \<open>interface_used\<close>, which is
  \<open>None\<close> until \<open>main\<close> sets it; \<open>subprocess.run\<close> raises \<open>TypeError\<close> on a command with
  \<open>None\<close> in it, after the first line has been printed.
\<close>

definition disable_monitor_mode ::
  "'h env \<Rightarrow> pystr option \<Rightarrow> 'h state \<Rightarrow> (exn + unit) \<times> 'h state" where
  "disable_monitor_mode env iface s0 =
     (let s = log (Print (Restoring iface)) (log (Call_disable_monitor_mode iface) s0) in
      case iface of
        None \<Rightarrow> (Inl (Exception ''TypeError''), s)
      | Some i \<Rightarrow>
          and_then (run_cmd env [str ''sudo'', str ''ip'', str ''link'', str ''set'', i,
                      str ''down''] s)
            (\<lambda>_ s.
          and_then (run_cmd env [str ''sudo'', str ''iw'', i, str ''set'', str ''type'',
                      str ''managed''] s)
            (\<lambda>_ s.
          and_then (run_cmd env [str ''sudo'', str ''ip'', str ''link'', str ''set'', i,
                      str ''up''] s)
            (\<lambda>_ s. (Inr (), log (Print (Restored iface)) s)))))"

section \<open>Airodump helpers\<close>

definition start_airodump ::
  "'h env \<Rightarrow> pystr \<Rightarrow> pystr \<Rightarrow> 'h state \<Rightarrow> (exn + unit) \<times> 'h state" where
  "start_airodump env iface out_prefix s0 =
     (let s = log (Call_start_airodump iface out_prefix) s0;
          cmd = [str ''sudo'', str ''airodump-ng'', str ''-w'', out_prefix,
                 str ''--output-format'', str ''csv'', iface] @
                concat (map (\<lambda>band. [str ''--band'', band]) AIRO_BANDS)
      in case popen env of
           Inl e \<Rightarrow> (Inl e, log (Popen cmd) s)
         | Inr pid \<Rightarrow> (Inr (), log (Sleep 2) ((log (Popen cmd) s)\<lparr>airodump_proc := Some pid\<rparr>)))"

text \<open>
  \<open>stop_airodump()\<close>. Whatever \<open>os.getpgid\<close> or \<open>os.killpg\<close> raises is dropped by
  \<open>except Exception: pass\<close>, and the handle is cleared in every case.
\<close>

definition stop_airodump :: "'h env \<Rightarrow> 'h state \<Rightarrow> 'h state" where
  "stop_airodump env s0 =
     (let s = log Call_stop_airodump s0 in
      case airodump_proc s of
        None \<Rightarrow> s
      | Some pid \<Rightarrow>
          (case getpgid env of
             Inl e \<Rightarrow> (log (Getpgid pid) s)\<lparr>airodump_proc := None\<rparr>
           | Inr pgid \<Rightarrow> (log (Killpg pgid) (log (Getpgid pid) s))\<lparr>airodump_proc := None\<rparr>))"

section \<open>Signal handling\<close>

definition on_sigint :: "'h state \<Rightarrow> 'h state" where
  "on_sigint s = log (Print Stopping) ((log Call_on_sigint s)\<lparr>running := False\<rparr>)"

section \<open>Main\<close>

text \<open>\<open>os.path.join\<close> on two components (\<open>posixpath\<close>).\<close>

definition os_path_join :: "pystr \<Rightarrow> pystr \<Rightarrow> pystr" where
  "os_path_join a b =
     (if b \<noteq> [] \<and> hd b = 47 then b
      else if a = [] \<or> last a = 47 then a @ b
      else a @ [47] @ b)"

text \<open>
  \<open>time.sleep(REFRESH_SEC)\<close> in the loop. The handler is installed by then, so a SIGINT
  delivered during the sleep runs \<open>on_sigint\<close> and the sleep goes on to its end; the clock
  advances by one tick.
\<close>

definition sleep_poll :: "'h env \<Rightarrow> 'h state \<Rightarrow> 'h state" where
  "sleep_poll env s =
     (let s1 = (log (Sleep REFRESH_SEC) s)\<lparr>clock := Suc (clock s)\<rparr>
      in if sigint env (clock s) then on_sigint s1 else s1)"

text \<open>
  The body of \<open>while running\<close> (source lines 315 to 319). \<open>os.path.exists(None)\<close> raises
  \<open>TypeError\<close>. Both \<open>os.path.exists\<close> calls of one iteration, the one in \<open>main\<close> and the
  one in the parser, see the files of the same tick.
\<close>

definition loop_body :: "'h env \<Rightarrow> 'h state \<Rightarrow> (exn + unit) \<times> 'h state" where
  "loop_body env s =
     (case csv_path s of
        None \<Rightarrow> (Inl (Exception ''TypeError''), s)
      | Some path \<Rightarrow>
          (let s1 = log (Fs (PathExists path)) s in
           if files env (clock s) path \<noteq> Absent then
             (case parse_airodump_csv (files env (clock s)) (Some path) of
                (Inl e, acc) \<Rightarrow> (Inl e, s1\<lparr>trace := trace s1 @ map Fs acc\<rparr>)
              | (Inr nets, acc) \<Rightarrow>
                  (let s2 = s1\<lparr>trace := trace s1 @ map Fs acc\<rparr> in
                   if nets \<noteq> [] then
                     (case live_table env (clock s) of
                        Some e \<Rightarrow> (Inl e, log (Print_live_table nets) s2)
                      | None \<Rightarrow> (Inr (), sleep_poll env (log (Print_live_table nets) s2)))
                   else (Inr (), sleep_poll env s2)))
           else (Inr (), sleep_poll env s1)))"

text \<open>
  \<open>while running: ...\<close> The loop need not end: the result is \<open>None\<close> when it runs for
  ever. It ends when the flag is found false or when the body raises.
\<close>

partial_function (option) scan_loop :: "'h env \<Rightarrow> 'h state \<Rightarrow> ((exn + unit) \<times> 'h state) option" where
  "scan_loop env s =
     (if running s then
        (case loop_body env s of
           (Inl e, s') \<Rightarrow> Some (Inl e, s')
         | (Inr u, s') \<Rightarrow> scan_loop env s')
      else Some (Inr (), s))"

text \<open>The report step of the \<open>finally\<close> suite (source lines 324 to 329), before its handler.\<close>

definition report :: "'h env \<Rightarrow> 'h state \<Rightarrow> (exn + unit) \<times> 'h state" where
  "report env s =
     (case csv_path s of
        None \<Rightarrow> (Inl (Exception ''TypeError''), s)
      | Some path \<Rightarrow>
          (let s1 = log (Fs (PathExists path)) s in
           if files env (clock s) path \<noteq> Absent then
             (case parse_airodump_csv (files env (clock s)) (Some path) of
                (Inl e, acc) \<Rightarrow> (Inl e, s1\<lparr>trace := trace s1 @ map Fs acc\<rparr>)
              | (Inr nets, acc) \<Rightarrow>
                  (let s2 = s1\<lparr>trace := trace s1 @ map Fs acc\<rparr> in
                   if nets \<noteq> [] then
                     (case generate_pdf env of
                        Some e \<Rightarrow> (Inl e, log (Generate_pdf nets (output_dir s) (interface_used s)) s2)
                      | None \<Rightarrow> (Inr (), log (Generate_pdf nets (output_dir s) (interface_used s)) s2))
                   else (Inr (), log (Print NoNetworks) s2)))
           else (Inr (), s1)))"

text \<open>
  The \<open>finally\<close> suite (source lines 321 to 337): stop the capture; the report step, whose
  exception is printed; the restoration, whose exception is dropped; the last line.
\<close>

definition finalize :: "'h env \<Rightarrow> 'h state \<Rightarrow> 'h state" where
  "finalize env s =
     (let s1 = stop_airodump env s;
          s2 = (case report env s1 of
                  (Inl e, s') \<Rightarrow> log (Print (PdfFailed e)) s'
                | (Inr u, s') \<Rightarrow> s');
          s3 = snd (disable_monitor_mode env (interface_used s2) s2)
      in log (Print Done) s3)"

text \<open>
  The \<open>try\<close> statement of \<open>main\<close> (source lines 313 to 337): the loop, then the \<open>finally\<close>
  suite however the loop was left; an exception of the loop is raised again after it.
\<close>

definition main_try :: "'h env \<Rightarrow> 'h state \<Rightarrow> ((exn + unit) \<times> 'h state) option" where
  "main_try env s =
     (case scan_loop env s of
        None \<Rightarrow> None
      | Some (r, s') \<Rightarrow> Some (r, finalize env s'))"

text \<open>
  \<open>main()\<close>. The result is \<open>None\<close> when the scan loop never ends, and otherwise the
  exception that leaves \<open>main\<close> or its normal return, with the final state. Everything up
  to the installation of the handler is outside the \<open>try\<close> statement.
\<close>

definition main :: "'h env \<Rightarrow> 'h state \<Rightarrow> ((exn + unit) \<times> 'h state) option" where
  "main env s0 =
     (let dir = os_path_join (os_path_join BASE_DIR (now_date env)) (now_time env);
          s = log (Makedirs dir) (s0\<lparr>output_dir := Some dir\<rparr>)
      in case makedirs env of
           Some e \<Rightarrow> Some (Inl e, s)
         | None \<Rightarrow>
             (let out_prefix = os_path_join dir (str ''scan'') in
              case wifi_interface env of
                Inl e \<Rightarrow> Some (Inl e, s)
              | Inr None \<Rightarrow> Some (Inr (), log (Print NoInterface) s)
              | Inr (Some iface) \<Rightarrow>
                  if iface = [] then Some (Inr (), log (Print NoInterface) s)
                  else
                    (case enable_monitor_mode env iface s of
                       (Inl e, s1) \<Rightarrow> Some (Inl e, s1)
                     | (Inr used, s1) \<Rightarrow>
                         (case start_airodump env used out_prefix
                                 (s1\<lparr>interface_used := Some used\<rparr>) of
                            (Inl e, s2) \<Rightarrow> Some (Inl e, s2)
                          | (Inr u, s2) \<Rightarrow>
                              (let s3 = log Signal_sigint
                                          (log (Print (Scanning used dir))
                                             (s2\<lparr>csv_path := Some (out_prefix @ str ''-01.csv'')\<rparr>))
                               in main_try env s3)))))"

text \<open>The two calls of the shutdown sequence that a run must make once each.\<close>

fun is_shutdown_call :: "event \<Rightarrow> bool" where
  "is_shutdown_call Call_stop_airodump = True"
| "is_shutdown_call (Call_disable_monitor_mode i) = True"
| "is_shutdown_call e = False"

text \<open>The two outcomes of the report step that a run shows: the report, or the note.\<close>

fun is_report_event :: "event \<Rightarrow> bool" where
  "is_report_event (Generate_pdf nets dir iface) = True"
| "is_report_event (Print NoNetworks) = True"
| "is_report_event e = False"

subsection \<open>A host and some runs\<close>

text \<open>
  A host with one wireless interface, \<open>wlan0\<close>, whose state is the mode of that interface.
  \<open>iw dev\<close> reports the mode; on the first host the mode-change commands succeed, on the
  second (a user without the privilege) every \<open>sudo\<close> command fails with status 1 and
  changes nothing.
\<close>

datatype mode = Managed | Monitor

definition ex_iw_dev :: "mode \<Rightarrow> pystr" where
  "ex_iw_dev m = str ''phy#0'' @ [10, 9] @ str ''Interface wlan0'' @ [10, 9, 9] @
     str ''ifindex 3'' @ [10, 9, 9] @
     (case m of Managed \<Rightarrow> str ''type managed'' | Monitor \<Rightarrow> str ''type monitor'') @ [10]"

definition ex_exec :: "mode \<Rightarrow> pystr list \<Rightarrow> (exn + completed) \<times> mode" where
  "ex_exec m cmd =
     (if cmd = [str ''iw'', str ''dev''] then (Inr \<lparr>returncode = 0, stdout = ex_iw_dev m\<rparr>, m)
      else if cmd = [str ''sudo'', str ''iw'', str ''wlan0'', str ''set'', str ''type'', str ''monitor'']
        then (Inr \<lparr>returncode = 0, stdout = []\<rparr>, Monitor)
      else if cmd = [str ''sudo'', str ''iw'', str ''wlan0'', str ''set'', str ''type'', str ''managed'']
        then (Inr \<lparr>returncode = 0, stdout = []\<rparr>, Managed)
      else (Inr \<lparr>returncode = 0, stdout = []\<rparr>, m))"

definition ex_exec_denied :: "mode \<Rightarrow> pystr list \<Rightarrow> (exn + completed) \<times> mode" where
  "ex_exec_denied m cmd =
     (if cmd = [str ''iw'', str ''dev''] then (Inr \<lparr>returncode = 0, stdout = ex_iw_dev m\<rparr>, m)
      else (Inr \<lparr>returncode = 1, stdout = []\<rparr>, m))"

text \<open>
  The capture file appears after the first poll. The interrupt comes during the second
  sleep; the report generator raises.
\<close>

definition ex_files :: "nat \<Rightarrow> pystr \<Rightarrow> file_state" where
  "ex_files t p = (if t = 0 then Absent else Rows ex_rows None)"

definition ex_sigint :: "nat \<Rightarrow> bool" where
  "ex_sigint t = (t = 1)"

definition ex_live_table :: "nat \<Rightarrow> exn option" where
  "ex_live_table t = None"

definition ex_env :: "mode env" where
  "ex_env = \<lparr> exec = ex_exec, now_date = str ''04-11-2026'', now_time = str ''02:15 PM'',
     makedirs = None, wifi_interface = Inr (Some (str ''wlan0'')), popen = Inr 4242,
     getpgid = Inr 4242, files = ex_files, sigint = ex_sigint, live_table = ex_live_table,
     generate_pdf = Some (Exception ''PermissionError'') \<rparr>"

text \<open>The same, when the capture process cannot be started.\<close>

definition ex_env_launch_fails :: "mode env" where
  "ex_env_launch_fails = ex_env\<lparr>popen := Inl (Exception ''OSError'')\<rparr>"

text \<open>The same host when the capture tool never writes its file.\<close>

definition ex_no_files :: "nat \<Rightarrow> pystr \<Rightarrow> file_state" where
  "ex_no_files t p = Absent"

definition ex_env_no_file :: "mode env" where
  "ex_env_no_file = ex_env\<lparr>files := ex_no_files\<rparr>"

text \<open>The same host when the file holds the header of the access-point table and no row.\<close>

definition ex_header_only :: "nat \<Rightarrow> pystr \<Rightarrow> file_state" where
  "ex_header_only t p = Rows [[], ex_header] None"

definition ex_env_no_networks :: "mode env" where
  "ex_env_no_networks = ex_env\<lparr>files := ex_header_only\<rparr>"

text \<open>The host on which the mode change is refused.\<close>

definition ex_env_denied :: "mode env" where
  "ex_env_denied = ex_env\<lparr>exec := ex_exec_denied\<rparr>"

text \<open>A session at the point where \<open>main\<close> enters its \<open>try\<close> statement.\<close>

definition ex_session :: "mode state" where
  "ex_session = \<lparr> running = True, airodump_proc = Some 4242,
     interface_used = Some (str ''wlan0''), output_dir = Some (str ''/tmp/wifi_logs''),
     csv_path = Some ex_path, host = Monitor, clock = 0, trace = [] \<rparr>"

section \<open>Properties of the parser\<close>

subsection \<open>Stripping\<close>

lemma py_strip_trimmed: "trimmed_of s (py_strip s)"
proof -
  let ?m = "dropWhile is_space s"
  let ?a = "takeWhile is_space s"
  let ?b = "rev (takeWhile is_space (rev ?m))"
  have "rev ?m = takeWhile is_space (rev ?m) @ dropWhile is_space (rev ?m)"
    by (simp only: takeWhile_dropWhile_id)
  then have "rev (rev ?m) = rev (takeWhile is_space (rev ?m) @ dropWhile is_space (rev ?m))"
    by (rule arg_cong)
  then have m: "?m = py_strip s @ ?b"
    by (simp only: rev_rev_ident rev_append py_strip_def)
  have "s = ?a @ ?m" by (simp only: takeWhile_dropWhile_id)
  then have ab: "s = ?a @ py_strip s @ ?b" using m by simp
  have sa: "\<forall>c\<in>set ?a. is_space c" using set_takeWhileD by fastforce
  have sb: "\<forall>c\<in>set ?b. is_space c" using set_takeWhileD by fastforce
  have ends: "py_strip s = [] \<or> (\<not> is_space (hd (py_strip s)) \<and> \<not> is_space (last (py_strip s)))"
  proof (cases "py_strip s = []")
    case True then show ?thesis by simp
  next
    case False
    then have ne: "dropWhile is_space (rev ?m) \<noteq> []" by (simp add: py_strip_def del: dropWhile_eq_Nil_conv)
    have "\<not> is_space (hd (dropWhile is_space (rev ?m)))" using ne by (rule hd_dropWhile)
    then have l: "\<not> is_space (last (py_strip s))"
      using ne by (simp add: py_strip_def last_rev del: dropWhile_eq_Nil_conv)
    have "rev ?m \<noteq> []"
    proof
      assume e: "rev ?m = []"
      have "dropWhile is_space (rev ?m) = dropWhile is_space []" by (simp only: e)
      then have "dropWhile is_space (rev ?m) = []" by (simp only: dropWhile.simps)
      with ne show False by (rule notE)
    qed
    then have "?m \<noteq> []" by (simp del: dropWhile_eq_Nil_conv)
    then have h0: "\<not> is_space (hd ?m)" by (rule hd_dropWhile)
    have "hd (py_strip s @ ?b) = hd (py_strip s)" using False by (rule hd_append2)
    then have "hd ?m = hd (py_strip s)" using m by simp
    then show ?thesis using l h0 by simp
  qed
  have "\<exists>a b. s = a @ py_strip s @ b \<and> (\<forall>c\<in>set a. is_space c) \<and> (\<forall>c\<in>set b. is_space c)"
    using ab sa sb by blast
  then show ?thesis unfolding trimmed_of_def using ends by blast
qed

lemma py_strip_empty_iff: "py_strip s = [] \<longleftrightarrow> (\<forall>c\<in>set s. is_space c)"
proof
  assume e: "py_strip s = []"
  then have a: "\<forall>x\<in>set (dropWhile is_space s). is_space x"
    by (simp add: py_strip_def dropWhile_eq_Nil_conv)
  have "dropWhile is_space s = []"
  proof (rule ccontr)
    assume ne: "dropWhile is_space s \<noteq> []"
    then have "\<not> is_space (hd (dropWhile is_space s))" by (rule hd_dropWhile)
    moreover have "hd (dropWhile is_space s) \<in> set (dropWhile is_space s)" using ne by simp
    ultimately show False using a by blast
  qed
  then show "\<forall>c\<in>set s. is_space c" by (simp add: dropWhile_eq_Nil_conv)
next
  assume "\<forall>c\<in>set s. is_space c"
  then have "dropWhile is_space s = []" by (simp only: dropWhile_eq_Nil_conv)
  then show "py_strip s = []" by (simp add: py_strip_def del: dropWhile_eq_Nil_conv)
qed

lemma tokens_differ: "str ''Station MAC'' \<noteq> str ''BSSID''"
  by (simp add: str_def)

subsection \<open>The row loop\<close>

lemma for_rows_acc:
  "for_rows rows fin seen nets =
     (nets @ fst (for_rows rows fin seen []), snd (for_rows rows fin seen []))"
proof (induction rows arbitrary: seen nets)
  case Nil then show ?case by simp
next
  case (Cons row rest)
  show ?case
    using Cons.IH[of seen nets] Cons.IH[of True nets] Cons.IH[of seen "nets @ [ap_of_row row]"]
      Cons.IH[of seen "[ap_of_row row]"] Cons.IH[of True "nets @ [ap_of_row row]"]
      Cons.IH[of True "[ap_of_row row]"]
    by simp
qed

lemma for_rows_fin: "fst (for_rows rows fin seen nets) = fst (for_rows rows None seen nets)"
  by (induction rows arbitrary: seen nets) simp_all

lemma for_rows_pre:
  assumes "\<forall>row\<in>set pre. row = [] \<or>
             (py_strip (row ! 0) \<noteq> str ''BSSID'' \<and> py_strip (row ! 0) \<noteq> str ''Station MAC'')"
  shows "for_rows (pre @ rest) fin False nets = for_rows rest fin False nets"
  using assms by (induction pre) auto

lemma for_rows_skip:
  assumes "\<forall>b\<in>set before. b \<noteq> [] \<longrightarrow> py_strip (b ! 0) \<noteq> str ''Station MAC''"
  shows "\<exists>more. for_rows (before @ rest) fin seen nets =
           for_rows rest fin
             (seen \<or> (\<exists>h\<in>set before. h \<noteq> [] \<and> py_strip (h ! 0) = str ''BSSID'')) (nets @ more)"
  using assms
proof (induction before arbitrary: seen nets)
  case Nil
  show ?case by (rule exI[of _ "[]"]) simp
next
  case (Cons b before)
  have st: "b \<noteq> [] \<longrightarrow> py_strip (b ! 0) \<noteq> str ''Station MAC''" using Cons.prems by simp
  have rest: "\<forall>b\<in>set before. b \<noteq> [] \<longrightarrow> py_strip (b ! 0) \<noteq> str ''Station MAC''"
    using Cons.prems by simp
  note IH = Cons.IH[OF rest]
  consider (blank) "b = []"
    | (hdr) "b \<noteq> []" "py_strip (b ! 0) = str ''BSSID''"
    | (acc) "b \<noteq> []" "py_strip (b ! 0) \<noteq> str ''BSSID''" "seen \<and> 13 < length b"
    | (short) "b \<noteq> []" "py_strip (b ! 0) \<noteq> str ''BSSID''" "\<not> (seen \<and> 13 < length b)"
    by blast
  then show ?case
  proof cases
    case blank
    then show ?thesis using IH[of seen nets] by simp
  next
    case hdr
    then show ?thesis using IH[of True nets] by simp
  next
    case acc
    obtain more where "for_rows (before @ rest) fin seen (nets @ [ap_of_row b]) =
        for_rows rest fin
          (seen \<or> (\<exists>h\<in>set before. h \<noteq> [] \<and> py_strip (h ! 0) = str ''BSSID''))
          ((nets @ [ap_of_row b]) @ more)"
      using IH[of seen "nets @ [ap_of_row b]"] by blast
    then have "for_rows ((b # before) @ rest) fin seen nets =
        for_rows rest fin
          (seen \<or> (\<exists>h\<in>set (b # before). h \<noteq> [] \<and> py_strip (h ! 0) = str ''BSSID''))
          (nets @ (ap_of_row b # more))"
      using acc st by simp
    then show ?thesis by blast
  next
    case short
    then show ?thesis using IH[of seen nets] st by auto
  qed
qed

lemma for_rows_aps:
  assumes "\<forall>row\<in>set aps. 13 < length row \<and> py_strip (row ! 0) \<noteq> str ''BSSID'' \<and>
             py_strip (row ! 0) \<noteq> str ''Station MAC''"
  shows "for_rows (aps @ rest) fin True nets = for_rows rest fin True (nets @ map ap_of_row aps)"
  using assms
proof (induction aps arbitrary: nets)
  case Nil
  show ?case by simp
next
  case (Cons row aps)
  have ne: "row \<noteq> []" using Cons.prems by auto
  show ?case using Cons.IH[of "nets @ [ap_of_row row]"] Cons.prems ne by simp
qed

lemma for_rows_bad_station:
  assumes "length bad < 14" "sta \<noteq> []" "py_strip (sta ! 0) = str ''Station MAC''"
  shows "for_rows (bad # sta # stas) fin True nets = (nets, None)"
proof -
  have s: "for_rows (sta # stas) fin True nets = (nets, None)"
    using assms(2,3) tokens_differ by simp
  have n: "\<not> 13 < length bad" using assms(1) by simp
  show ?thesis using s n by (simp del: for_rows.simps add: for_rows.simps(2)[of bad])
qed

lemma for_rows_step_cases:
  "fst (for_rows (row # rest) fin seen []) = fst (for_rows rest fin seen []) \<or>
   fst (for_rows (row # rest) fin seen []) = fst (for_rows rest fin True []) \<or>
   fst (for_rows (row # rest) fin seen []) = [] \<or>
   (13 < length row \<and>
    fst (for_rows (row # rest) fin seen []) = ap_of_row row # fst (for_rows rest fin True []))"
  using for_rows_acc[of rest fin True "[ap_of_row row]"] by simp

lemma for_rows_keys:
  "set (map BSSID (fst (for_rows rows fin seen []))) \<subseteq>
     set (map (\<lambda>row. py_strip (row ! 0)) (filter (\<lambda>row. 13 < length row) rows)) \<and>
   (distinct (map (\<lambda>row. py_strip (row ! 0)) (filter (\<lambda>row. 13 < length row) rows)) \<longrightarrow>
    distinct (map BSSID (fst (for_rows rows fin seen []))))"
proof (induction rows arbitrary: seen)
  case Nil
  show ?case by simp
next
  case (Cons row rest)
  let ?K = "\<lambda>rows. map (\<lambda>row. py_strip (row ! 0)) (filter (\<lambda>row. 13 < length row) rows)"
  let ?R = "\<lambda>seen. map BSSID (fst (for_rows rest fin seen []))"
  have sub: "set (?R b) \<subseteq> set (?K rest)" for b using Cons.IH[of b] by blast
  have dis: "distinct (?K rest) \<Longrightarrow> distinct (?R b)" for b using Cons.IH[of b] by blast
  have mono: "set (?K rest) \<subseteq> set (?K (row # rest))" by auto
  have dmono: "distinct (?K (row # rest)) \<Longrightarrow> distinct (?K rest)" by (simp split: if_splits)
  consider (same) b where "fst (for_rows (row # rest) fin seen []) = fst (for_rows rest fin b [])"
    | (nil) "fst (for_rows (row # rest) fin seen []) = []"
    | (app) "13 < length row"
        "fst (for_rows (row # rest) fin seen []) = ap_of_row row # fst (for_rows rest fin True [])"
    using for_rows_step_cases[of row rest fin seen] by blast
  then show ?case
  proof cases
    case same
    show ?thesis unfolding same using sub[of b] dis[of b] mono dmono by blast
  next
    case nil
    show ?thesis unfolding nil by simp
  next
    case app
    have k: "BSSID (ap_of_row row) = py_strip (row ! 0)" by (simp add: ap_of_row_def)
    have K: "?K (row # rest) = py_strip (row ! 0) # ?K rest" using app(1) by simp
    show ?thesis unfolding app(2) K using sub[of True] dis[of True] k by auto
  qed
qed

subsection \<open>The parser\<close>

lemmas ex_defs = ex_path_def ex_header_def ex_ap_home_def ex_ap_hidden_def ex_short_def
  ex_station_header_def ex_station_def ex_rows_def ex_fs_def ex_fs_read_error_def
  ex_fs_repeated_def

lemmas eval_defs = parse_airodump_csv_def read_ap_table_def ap_of_row_def py_strip_def
  is_space_def str_def

lemma parse_result:
  "fst (parse_airodump_csv fs (Some p)) =
     Inr (if p = [] \<or> fs p = Absent then [] else fst (read_ap_table (fs p)))"
  by (simp add: parse_airodump_csv_def split: prod.splits option.splits)

text \<open>
  Claim C10. Called with a path that is false in Python, \<open>None\<close> or the empty string,
  \<open>parse_airodump_csv\<close> returns the empty list, raises nothing and makes no file-system
  call: the list of calls is empty, whatever the file system holds.
\<close>

theorem parse_falsy_path:
  "parse_airodump_csv fs None = (Inr [], []) \<and> parse_airodump_csv fs (Some []) = (Inr [], [])"
  by (simp add: parse_airodump_csv_def)

text \<open>
  Claim C3, as the code has it. \<open>parse_airodump_csv\<close> returns a list for every file
  system and every argument and never raises. For a path with no file the list is empty,
  and so it is when \<open>open\<close> fails. When reading fails after some rows, the exception is
  dropped and the result is the list built up to there: the same list as for a file that
  ends where the error occurred.
\<close>

theorem parse_never_raises:
  "(\<exists>nets acc. parse_airodump_csv fs path = (Inr nets, acc)) \<and>
   fst (parse_airodump_csv (fs(p := Absent)) (Some p)) = Inr [] \<and>
   fst (parse_airodump_csv (fs(p := OpenFails e)) (Some p)) = Inr [] \<and>
   fst (parse_airodump_csv (fs(p := Rows rows (Some e))) (Some p)) =
     fst (parse_airodump_csv (fs(p := Rows rows None)) (Some p))"
proof -
  have total: "\<exists>nets acc. parse_airodump_csv fs path = (Inr nets, acc)"
    by (cases path) (auto simp: parse_airodump_csv_def split: prod.splits option.splits)
  have absent: "fst (parse_airodump_csv (fs(p := Absent)) (Some p)) = Inr []"
    by (simp add: parse_result)
  have unreadable: "fst (parse_airodump_csv (fs(p := OpenFails e)) (Some p)) = Inr []"
    by (simp add: parse_result read_ap_table_def)
  have partial: "fst (parse_airodump_csv (fs(p := Rows rows (Some e))) (Some p)) =
      fst (parse_airodump_csv (fs(p := Rows rows None)) (Some p))"
    using for_rows_fin[of rows "Some e" False "[]"] by (simp add: parse_result read_ap_table_def)
  show ?thesis using total absent unreadable partial by blast
qed

text \<open>
  Claim C3 as stated fails: when reading raises after the header and one access point,
  the result is not the empty snapshot but the one record read before the error.
\<close>

theorem parse_read_error_counterexample:
  "fst (parse_airodump_csv ex_fs_read_error (Some ex_path)) \<noteq> Inr [] \<and>
   fst (parse_airodump_csv ex_fs_read_error (Some ex_path)) =
     Inr [\<lparr>BSSID = str ''AA:BB:CC:DD:EE:01'', SSID = str ''Home'', Channel = str ''6'',
           Privacy = str ''WPA2'', Cipher = str ''CCMP'', Auth = str ''PSK'',
           Power = str ''-40''\<rparr>]"
  by (simp add: ex_defs eval_defs)

text \<open>
  Claim C4. The file holds, in this order, rows before the header of the access-point
  table (blank rows, or rows whose first field is neither header token), the header row
  (first field \<open>BSSID\<close> once stripped), \<open>N\<close> access-point rows of at least 14 fields
  (their first field is an address, so neither header token), one row of fewer than 14
  fields, the station header (first field \<open>Station MAC\<close>) and any station rows. Then the
  result has exactly \<open>N\<close> records: the records of the \<open>N\<close> access-point rows, in the
  order of the file. This holds however the reader ends after the station rows.
\<close>

theorem parse_ap_table_boundary:
  assumes path: "p \<noteq> []"
    and content: "fs p = Rows (pre @ [header] @ aps @ [bad] @ [station_header] @ stations) fin"
    and pre: "\<forall>row\<in>set pre. row = [] \<or>
                (py_strip (row ! 0) \<noteq> str ''BSSID'' \<and> py_strip (row ! 0) \<noteq> str ''Station MAC'')"
    and header: "header \<noteq> [] \<and> py_strip (header ! 0) = str ''BSSID''"
    and aps: "\<forall>row\<in>set aps. 14 \<le> length row \<and>
                py_strip (row ! 0) \<noteq> str ''BSSID'' \<and> py_strip (row ! 0) \<noteq> str ''Station MAC''"
    and bad: "length bad < 14"
    and station_header:
      "station_header \<noteq> [] \<and> py_strip (station_header ! 0) = str ''Station MAC''"
  shows "(\<exists>nets. fst (parse_airodump_csv fs (Some p)) = Inr nets \<and> length nets = length aps) \<and>
         fst (parse_airodump_csv fs (Some p)) = Inr (map ap_of_row aps)"
proof -
  let ?tail = "bad # station_header # stations"
  have hd: "for_rows (header # aps @ ?tail) fin False [] = for_rows (aps @ ?tail) fin True []"
    using header by simp
  have aps': "\<forall>row\<in>set aps. 13 < length row \<and> py_strip (row ! 0) \<noteq> str ''BSSID'' \<and>
             py_strip (row ! 0) \<noteq> str ''Station MAC''"
    using aps by auto
  have "for_rows (pre @ header # aps @ ?tail) fin False [] = (map ap_of_row aps, None)"
    using for_rows_pre[OF pre, where rest = "header # aps @ ?tail" and fin = fin and nets = "[]"] hd
      for_rows_aps[OF aps', where rest = ?tail and fin = fin and nets = "[]"]
      for_rows_bad_station[where bad = bad and sta = station_header and fin = fin
        and stas = stations and nets = "map ap_of_row aps"]
      bad station_header
    by simp
  then have "fst (parse_airodump_csv fs (Some p)) = Inr (map ap_of_row aps)"
    using path content by (simp add: parse_result read_ap_table_def)
  then show ?thesis by simp
qed

text \<open>
  The example file has this shape, with a blank first row, two access points, the
  truncated row and two stations.
\<close>

theorem parse_ap_table_boundary_witness:
  "fst (parse_airodump_csv ex_fs (Some ex_path)) = Inr [ap_of_row ex_ap_home, ap_of_row ex_ap_hidden]"
proof -
  have path: "ex_path \<noteq> []" by (simp add: ex_defs str_def)
  have content: "ex_fs ex_path =
      Rows ([[]] @ [ex_header] @ [ex_ap_home, ex_ap_hidden] @ [ex_short] @ [ex_station_header] @
        [ex_station, ex_station]) None"
    by (simp add: ex_fs_def ex_rows_def)
  have pre: "\<forall>row\<in>set [[]]. row = [] \<or>
      (py_strip (row ! 0) \<noteq> str ''BSSID'' \<and> py_strip (row ! 0) \<noteq> str ''Station MAC'')"
    by simp
  have header: "ex_header \<noteq> [] \<and> py_strip (ex_header ! 0) = str ''BSSID''"
    by (simp add: ex_defs eval_defs)
  have aps: "\<forall>row\<in>set [ex_ap_home, ex_ap_hidden]. 14 \<le> length row \<and>
      py_strip (row ! 0) \<noteq> str ''BSSID'' \<and> py_strip (row ! 0) \<noteq> str ''Station MAC''"
    by (simp add: ex_defs eval_defs)
  have bad: "length ex_short < 14" by (simp add: ex_defs)
  have sta: "ex_station_header \<noteq> [] \<and> py_strip (ex_station_header ! 0) = str ''Station MAC''"
    by (simp add: ex_defs eval_defs)
  show ?thesis
    using parse_ap_table_boundary[where p = ex_path and fs = ex_fs and pre = "[[]]"
        and header = ex_header and aps = "[ex_ap_home, ex_ap_hidden]" and bad = ex_short
        and station_header = ex_station_header and stations = "[ex_station, ex_station]"
        and fin = None, OF path content pre header aps bad sta]
    by simp
qed


text \<open>
  Claim C5. A row is accepted when it has more than 13 fields, comes after a header row of
  the access-point table and before any station header, and is not itself a header row.
  For every such row the result holds a record whose BSSID, channel, privacy, cipher,
  authentication and power are the stripped fields 0, 3, 5, 6, 7 and 8, and whose SSID is
  the stripped field 13, or \<open>Hidden\<close> when that field is empty or all whitespace.
  Stripping is trimming in the sense of \<open>trimmed_of\<close>.
\<close>

theorem parse_extracts_columns:
  assumes path: "p \<noteq> []"
    and content: "fs p = Rows (before @ row # after) fin"
    and header_seen: "\<exists>h\<in>set before. h \<noteq> [] \<and> py_strip (h ! 0) = str ''BSSID''"
    and no_station: "\<forall>b\<in>set before. b \<noteq> [] \<longrightarrow> py_strip (b ! 0) \<noteq> str ''Station MAC''"
    and long: "13 < length row"
    and no_token: "py_strip (row ! 0) \<noteq> str ''BSSID'' \<and> py_strip (row ! 0) \<noteq> str ''Station MAC''"
  shows "\<exists>nets. fst (parse_airodump_csv fs (Some p)) = Inr nets \<and>
           (\<exists>r\<in>set nets.
              BSSID r = py_strip (row ! 0) \<and> Channel r = py_strip (row ! 3) \<and>
              Privacy r = py_strip (row ! 5) \<and> Cipher r = py_strip (row ! 6) \<and>
              Auth r = py_strip (row ! 7) \<and> Power r = py_strip (row ! 8) \<and>
              SSID r = (if \<forall>c\<in>set (row ! 13). is_space c then str ''Hidden''
                        else py_strip (row ! 13)) \<and>
              (\<forall>i. trimmed_of (row ! i) (py_strip (row ! i))))"
proof -
  obtain more where m: "for_rows (before @ row # after) fin False [] =
      for_rows (row # after) fin
        (False \<or> (\<exists>h\<in>set before. h \<noteq> [] \<and> py_strip (h ! 0) = str ''BSSID'')) ([] @ more)"
    using for_rows_skip[OF no_station, where rest = "row # after" and fin = fin and seen = False
        and nets = "[]"]
    by blast
  have ne: "row \<noteq> []" using long by auto
  have "for_rows (row # after) fin True more = for_rows after fin True (more @ [ap_of_row row])"
    using ne long no_token by simp
  then have "fst (for_rows (before @ row # after) fin False []) =
      (more @ [ap_of_row row]) @ fst (for_rows after fin True [])"
    using m header_seen for_rows_acc[of after fin True "more @ [ap_of_row row]"] by simp
  then have res: "fst (parse_airodump_csv fs (Some p)) =
      Inr ((more @ [ap_of_row row]) @ fst (for_rows after fin True []))"
    using path content by (simp add: parse_result read_ap_table_def)
  have mem: "ap_of_row row \<in> set ((more @ [ap_of_row row]) @ fst (for_rows after fin True []))"
    by simp
  have fields: "BSSID (ap_of_row row) = py_strip (row ! 0) \<and>
      Channel (ap_of_row row) = py_strip (row ! 3) \<and>
      Privacy (ap_of_row row) = py_strip (row ! 5) \<and> Cipher (ap_of_row row) = py_strip (row ! 6) \<and>
      Auth (ap_of_row row) = py_strip (row ! 7) \<and> Power (ap_of_row row) = py_strip (row ! 8)"
    by (simp add: ap_of_row_def)
  have ssid: "SSID (ap_of_row row) =
      (if \<forall>c\<in>set (row ! 13). is_space c then str ''Hidden'' else py_strip (row ! 13))"
    using py_strip_empty_iff[of "row ! 13"] by (simp add: ap_of_row_def)
  have trim: "\<forall>i. trimmed_of (row ! i) (py_strip (row ! i))"
    using py_strip_trimmed by blast
  show ?thesis using res mem fields ssid trim by blast
qed

text \<open>
  In the example file the second access point, whose name is a single blank, is read as
  \<open>Hidden\<close>, with its other fields stripped.
\<close>

theorem parse_extracts_columns_witness:
  "\<exists>nets. fst (parse_airodump_csv ex_fs (Some ex_path)) = Inr nets \<and>
     (\<exists>r\<in>set nets.
        BSSID r = str ''AA:BB:CC:DD:EE:02'' \<and> Channel r = str ''11'' \<and> Privacy r = str ''OPN'' \<and>
        Cipher r = [] \<and> Auth r = [] \<and> Power r = str ''-71'' \<and> SSID r = str ''Hidden'')"
proof -
  have path: "ex_path \<noteq> []" by (simp add: ex_defs str_def)
  have content: "ex_fs ex_path =
      Rows ([[], ex_header, ex_ap_home] @ ex_ap_hidden #
        [ex_short, ex_station_header, ex_station, ex_station]) None"
    by (simp add: ex_fs_def ex_rows_def)
  have header_seen: "\<exists>h\<in>set [[], ex_header, ex_ap_home].
      h \<noteq> [] \<and> py_strip (h ! 0) = str ''BSSID''"
    by (simp add: ex_defs eval_defs)
  have no_station: "\<forall>b\<in>set [[], ex_header, ex_ap_home].
      b \<noteq> [] \<longrightarrow> py_strip (b ! 0) \<noteq> str ''Station MAC''"
    by (simp add: ex_defs eval_defs)
  have long: "13 < length ex_ap_hidden" by (simp add: ex_defs)
  have no_token: "py_strip (ex_ap_hidden ! 0) \<noteq> str ''BSSID'' \<and>
      py_strip (ex_ap_hidden ! 0) \<noteq> str ''Station MAC''"
    by (simp add: ex_defs eval_defs)
  have cols: "py_strip (ex_ap_hidden ! 0) = str ''AA:BB:CC:DD:EE:02'' \<and>
      py_strip (ex_ap_hidden ! 3) = str ''11'' \<and> py_strip (ex_ap_hidden ! 5) = str ''OPN'' \<and>
      py_strip (ex_ap_hidden ! 6) = [] \<and> py_strip (ex_ap_hidden ! 7) = [] \<and>
      py_strip (ex_ap_hidden ! 8) = str ''-71'' \<and> (\<forall>c\<in>set (ex_ap_hidden ! 13). is_space c)"
    by (simp add: ex_defs eval_defs)
  have "\<exists>nets. fst (parse_airodump_csv ex_fs (Some ex_path)) = Inr nets \<and>
     (\<exists>r\<in>set nets.
        BSSID r = str ''AA:BB:CC:DD:EE:02'' \<and> Channel r = str ''11'' \<and> Privacy r = str ''OPN'' \<and>
        Cipher r = [] \<and> Auth r = [] \<and> Power r = str ''-71'' \<and> SSID r = str ''Hidden'' \<and>
        (\<forall>i. trimmed_of (ex_ap_hidden ! i) (py_strip (ex_ap_hidden ! i))))"
    using parse_extracts_columns[where p = ex_path and fs = ex_fs
        and before = "[[], ex_header, ex_ap_home]" and row = ex_ap_hidden
        and after = "[ex_short, ex_station_header, ex_station, ex_station]" and fin = None,
        OF path content header_seen no_station long no_token]
      cols
    by (simp del: set_simps)
  then show ?thesis by blast
qed

text \<open>
  Claim C9, as the code has it. The parser does not remove duplicates: it appends one
  record for each accepted row. The BSSID values of a snapshot are pairwise distinct
  whenever the rows of more than 13 fields in the file have pairwise distinct stripped
  first fields.
\<close>

theorem parse_bssid_distinct:
  assumes "distinct (map (\<lambda>row. py_strip (row ! 0)) (filter (\<lambda>row. 13 < length row) rows))"
  shows "\<exists>nets. fst (parse_airodump_csv (fs(p := Rows rows fin)) (Some p)) = Inr nets \<and>
           distinct (map BSSID nets)"
proof (cases "p = []")
  case True
  then show ?thesis by (simp add: parse_result)
next
  case False
  then have "fst (parse_airodump_csv (fs(p := Rows rows fin)) (Some p)) =
      Inr (fst (for_rows rows fin False []))"
    by (simp add: parse_result read_ap_table_def)
  then show ?thesis using for_rows_keys[of rows fin False] assms by simp
qed

text \<open>
  The rows of the example file have distinct addresses, and so has its snapshot.
\<close>

theorem parse_bssid_distinct_witness:
  "distinct (map (\<lambda>row. py_strip (row ! 0)) (filter (\<lambda>row. 13 < length row) ex_rows)) \<and>
   (\<exists>nets. fst (parse_airodump_csv (ex_fs(ex_path := Rows ex_rows None)) (Some ex_path)) = Inr nets \<and>
      distinct (map BSSID nets))"
proof -
  have d: "distinct (map (\<lambda>row. py_strip (row ! 0)) (filter (\<lambda>row. 13 < length row) ex_rows))"
    by (simp add: ex_defs eval_defs)
  show ?thesis
    using d parse_bssid_distinct[OF d, where fs = ex_fs and p = ex_path and fin = None] by blast
qed

text \<open>
  Claim C9 as stated fails: a file that lists the same access point twice gives a
  snapshot of three records in which the first and the third have the same BSSID.
\<close>

theorem parse_bssid_repeated_counterexample:
  "fst (parse_airodump_csv ex_fs_repeated (Some ex_path)) =
     Inr [ap_of_row ex_ap_home, ap_of_row ex_ap_hidden, ap_of_row ex_ap_home] \<and>
   \<not> distinct (map BSSID [ap_of_row ex_ap_home, ap_of_row ex_ap_hidden, ap_of_row ex_ap_home])"
proof -
  have "fst (parse_airodump_csv ex_fs_repeated (Some ex_path)) =
      Inr [ap_of_row ex_ap_home, ap_of_row ex_ap_hidden, ap_of_row ex_ap_home]"
    by (simp add: ex_defs parse_airodump_csv_def read_ap_table_def py_strip_def is_space_def
        str_def)
  then show ?thesis by simp
qed

section \<open>Properties of the capture lifecycle\<close>

lemmas model_defs = enable_monitor_mode_def disable_monitor_mode_def start_airodump_def
  stop_airodump_def on_sigint_def sleep_poll_def loop_body_def report_def finalize_def
  main_try_def main_def and_then_def run_cmd_def log_def os_path_join_def already_monitor_def
  starts_interface_def initial_def BASE_DIR_def REFRESH_SEC_def AIRO_BANDS_def

lemmas ex2_defs = ex_iw_dev_def ex_exec_def ex_exec_denied_def ex_files_def ex_sigint_def
  ex_live_table_def ex_env_def ex_env_launch_fails_def ex_no_files_def ex_env_no_file_def
  ex_header_only_def ex_env_no_networks_def ex_env_denied_def ex_session_def

subsection \<open>What each step leaves unchanged\<close>

lemma parse_Inr: "\<exists>nets acc. parse_airodump_csv fs path = (Inr nets, acc)"
  by (cases path) (auto simp: parse_airodump_csv_def split: prod.splits option.splits)

lemma sleep_poll_simps:
  "interface_used (sleep_poll env s) = interface_used s"
  "csv_path (sleep_poll env s) = csv_path s"
  "output_dir (sleep_poll env s) = output_dir s"
  "clock (sleep_poll env s) = Suc (clock s)"
  "filter P (trace (sleep_poll env s)) =
     filter P (trace s) @ filter P [Sleep REFRESH_SEC] @
     (if sigint env (clock s) then filter P [Call_on_sigint, Print Stopping] else [])"
  by (simp_all add: sleep_poll_def on_sigint_def log_def Let_def)

lemma sleep_poll_running:
  "running (sleep_poll env s) = (running s \<and> \<not> sigint env (clock s))"
  by (simp add: sleep_poll_def on_sigint_def log_def Let_def)

lemma loop_body_frame:
  "interface_used (snd (loop_body env s)) = interface_used s \<and>
   filter is_shutdown_call (trace (snd (loop_body env s))) = filter is_shutdown_call (trace s)"
proof (cases "csv_path s")
  case None
  then show ?thesis by (simp add: loop_body_def)
next
  case (Some path)
  obtain nets acc where p: "parse_airodump_csv (files env (clock s)) (Some path) = (Inr nets, acc)"
    using parse_Inr by blast
  show ?thesis
    using Some p
    by (simp add: loop_body_def log_def Let_def filter_map comp_def sleep_poll_simps
        split: option.splits)
qed

lemma loop_body_clock:
  assumes "loop_body env s = (Inr u, s')"
  shows "clock s' = Suc (clock s) \<and> (sigint env (clock s) \<longrightarrow> \<not> running s')"
proof (cases "csv_path s")
  case None
  then show ?thesis using assms by (simp add: loop_body_def)
next
  case (Some path)
  obtain nets acc where p: "parse_airodump_csv (files env (clock s)) (Some path) = (Inr nets, acc)"
    using parse_Inr by blast
  show ?thesis
    using Some p assms
    by (auto simp: loop_body_def log_def Let_def sleep_poll_simps sleep_poll_running
        split: option.splits if_splits)
qed

lemma scan_loop_ends:
  assumes "sigint env n"
  shows "clock s \<le> n \<Longrightarrow>
    \<exists>r s'. scan_loop env s = Some (r, s') \<and> interface_used s' = interface_used s \<and>
      filter is_shutdown_call (trace s') = filter is_shutdown_call (trace s)"
proof (induction "n - clock s" arbitrary: s rule: less_induct)
  case less
  show ?case
  proof (cases "running s")
    case False
    then have "scan_loop env s = Some (Inr (), s)" by (subst scan_loop.simps) simp
    then show ?thesis by simp
  next
    case True
    obtain r s1 where b: "loop_body env s = (r, s1)" by (cases "loop_body env s")
    have f: "interface_used s1 = interface_used s \<and>
        filter is_shutdown_call (trace s1) = filter is_shutdown_call (trace s)"
      using loop_body_frame[of env s] b by simp
    show ?thesis
    proof (cases r)
      case (Inl e)
      then have "scan_loop env s = Some (Inl e, s1)"
        using True b by (subst scan_loop.simps) simp
      then show ?thesis using f by simp
    next
      case (Inr u)
      then have step: "scan_loop env s = scan_loop env s1"
        using True b by (subst scan_loop.simps) simp
      have c: "clock s1 = Suc (clock s) \<and> (sigint env (clock s) \<longrightarrow> \<not> running s1)"
        using loop_body_clock[of env s u s1] b Inr by simp
      show ?thesis
      proof (cases "clock s = n")
        case True
        then have "\<not> running s1" using c assms by simp
        then have "scan_loop env s1 = Some (Inr (), s1)" by (subst scan_loop.simps) simp
        then show ?thesis using step f by simp
      next
        case False
        then have le: "clock s1 \<le> n" and lt: "n - clock s1 < n - clock s"
          using c less.prems by auto
        obtain r' s' where "scan_loop env s1 = Some (r', s')"
          "interface_used s' = interface_used s1"
          "filter is_shutdown_call (trace s') = filter is_shutdown_call (trace s1)"
          using less.hyps[OF lt le] by blast
        then show ?thesis using step f by simp
      qed
    qed
  qed
qed

subsection \<open>The shutdown sequence\<close>

lemma stop_airodump_simps:
  "interface_used (stop_airodump env s) = interface_used s"
  "csv_path (stop_airodump env s) = csv_path s"
  "output_dir (stop_airodump env s) = output_dir s"
  "clock (stop_airodump env s) = clock s"
  "filter is_shutdown_call (trace (stop_airodump env s)) =
     filter is_shutdown_call (trace s) @ [Call_stop_airodump]"
  "filter is_report_event (trace (stop_airodump env s)) = filter is_report_event (trace s)"
  by (simp_all add: stop_airodump_def log_def Let_def split: option.splits sum.splits)

lemma report_frame:
  "interface_used (snd (report env s)) = interface_used s \<and>
   filter is_shutdown_call (trace (snd (report env s))) = filter is_shutdown_call (trace s)"
proof (cases "csv_path s")
  case None
  then show ?thesis by (simp add: report_def)
next
  case (Some path)
  obtain nets acc where p: "parse_airodump_csv (files env (clock s)) (Some path) = (Inr nets, acc)"
    using parse_Inr by blast
  show ?thesis
    using Some p
    by (simp add: report_def log_def Let_def filter_map comp_def split: option.splits)
qed

lemma report_events:
  assumes "csv_path s = Some path"
    and "parse_airodump_csv (files env (clock s)) (Some path) = (Inr nets, acc)"
  shows "filter is_report_event (trace (snd (report env s))) =
     filter is_report_event (trace s) @
     (if files env (clock s) path = Absent then []
      else if nets = [] then [Print NoNetworks]
      else [Generate_pdf nets (output_dir s) (interface_used s)])"
  using assms
  by (simp add: report_def log_def Let_def filter_map comp_def split: option.splits)

lemma disable_monitor_mode_events:
  "filter is_shutdown_call (trace (snd (disable_monitor_mode env iface s))) =
     filter is_shutdown_call (trace s) @ [Call_disable_monitor_mode iface] \<and>
   filter is_report_event (trace (snd (disable_monitor_mode env iface s))) =
     filter is_report_event (trace s)"
  by (simp add: disable_monitor_mode_def and_then_def run_cmd_def log_def Let_def
      split: option.splits prod.splits sum.splits)

lemma finalize_shutdown_calls:
  "filter is_shutdown_call (trace (finalize env s)) =
     filter is_shutdown_call (trace s) @
     [Call_stop_airodump, Call_disable_monitor_mode (interface_used s)]"
proof -
  let ?s1 = "stop_airodump env s"
  obtain r s' where r: "report env ?s1 = (r, s')" by (cases "report env ?s1")
  have f: "interface_used s' = interface_used s \<and>
      filter is_shutdown_call (trace s') = filter is_shutdown_call (trace s) @ [Call_stop_airodump]"
    using report_frame[of env ?s1] r by (simp add: stop_airodump_simps)
  show ?thesis
    using r f disable_monitor_mode_events[of env]
    by (cases r) (simp_all add: finalize_def Let_def log_def)
qed

lemma finalize_last: "last (trace (finalize env s)) = Print Done"
  by (simp add: finalize_def Let_def log_def)

text \<open>
  Claim C2. A session is running (the state is the one \<open>main\<close> enters its \<open>try\<close> statement
  with, any state here) and the interrupt is delivered during some later sleep. Then the
  statement ends, and in the trace it leaves the shutdown calls added to those made
  before are exactly one call of \<open>stop_airodump\<close> followed by one call of
  \<open>disable_monitor_mode\<close> on the interface in use, and the last event is the line
  \<open>Done\<close>. Nothing is assumed about the report generator, the live view or the host:
  this holds when \<open>generate_pdf\<close> raises, and also when the loop is left by an exception.
\<close>

theorem shutdown_completeness:
  assumes "sigint env n" and "clock s \<le> n"
  shows "\<exists>r s'. main_try env s = Some (r, s') \<and>
           filter is_shutdown_call (trace s') =
             filter is_shutdown_call (trace s) @
             [Call_stop_airodump, Call_disable_monitor_mode (interface_used s)] \<and>
           last (trace s') = Print Done"
proof -
  obtain r s1 where l: "scan_loop env s = Some (r, s1)"
      "interface_used s1 = interface_used s"
      "filter is_shutdown_call (trace s1) = filter is_shutdown_call (trace s)"
    using scan_loop_ends[OF assms] by blast
  have "main_try env s = Some (r, finalize env s1)"
    using l(1) by (simp add: main_try_def)
  then show ?thesis
    using finalize_shutdown_calls[of env s1] finalize_last[of env s1] l(2,3) by simp
qed

text \<open>
  A session on the example host: the file appears after the first poll, the interrupt
  comes during the second sleep, and the report generator raises. Both shutdown calls are
  made, once each.
\<close>

theorem shutdown_completeness_witness:
  "sigint ex_env 1 \<and> generate_pdf ex_env = Some (Exception ''PermissionError'') \<and>
   (\<exists>r s'. main_try ex_env ex_session = Some (r, s') \<and>
      filter is_shutdown_call (trace s') =
        [Call_stop_airodump, Call_disable_monitor_mode (Some (str ''wlan0''))] \<and>
      last (trace s') = Print Done)"
proof -
  have i: "sigint ex_env 1" by (simp add: ex_env_def ex_sigint_def)
  have c: "clock ex_session \<le> 1" by (simp add: ex_session_def)
  have g: "generate_pdf ex_env = Some (Exception ''PermissionError'')" by (simp add: ex_env_def)
  have t: "filter is_shutdown_call (trace ex_session) = []"
    and u: "interface_used ex_session = Some (str ''wlan0'')"
    by (simp_all add: ex_session_def)
  show ?thesis using shutdown_completeness[OF i c] i g t u by simp
qed

text \<open>
  Claim C1 fails on the code. On the example host the mode change succeeds and the
  capture process then cannot be started: \<open>main\<close> ends with the exception of
  \<open>subprocess.Popen\<close>, the interface is left in monitor mode, and neither shutdown call
  has been made, since \<open>start_airodump\<close> is called before the \<open>try\<close> statement is entered.
\<close>

theorem launch_failure_skips_restore:
  "main ex_env_launch_fails (initial Managed) \<noteq> None \<and>
   fst (the (main ex_env_launch_fails (initial Managed))) = Inl (Exception ''OSError'') \<and>
   host (snd (the (main ex_env_launch_fails (initial Managed)))) = Monitor \<and>
   filter is_shutdown_call (trace (snd (the (main ex_env_launch_fails (initial Managed))))) = []"
  by (simp add: model_defs ex2_defs eval_defs Let_def)

text \<open>
  Claim C7, as the code has it. In the \<open>finally\<close> suite the report generator is called
  exactly when the capture file exists and its final parse gives at least one record,
  and then with that list of records. When the file exists and gives no record, the note
  is printed instead. When the file does not exist, neither happens: the report is
  skipped without a note. In every case both shutdown calls are made and the suite ends
  with the line \<open>Done\<close>.
\<close>

theorem report_iff_records:
  assumes "csv_path s = Some path"
  shows "\<exists>nets. fst (parse_airodump_csv (files env (clock s)) (Some path)) = Inr nets \<and>
     filter is_report_event (trace (finalize env s)) =
       filter is_report_event (trace s) @
       (if files env (clock s) path = Absent then []
        else if nets = [] then [Print NoNetworks]
        else [Generate_pdf nets (output_dir s) (interface_used s)]) \<and>
     filter is_shutdown_call (trace (finalize env s)) =
       filter is_shutdown_call (trace s) @
       [Call_stop_airodump, Call_disable_monitor_mode (interface_used s)] \<and>
     last (trace (finalize env s)) = Print Done"
proof -
  let ?s1 = "stop_airodump env s"
  obtain nets acc where p: "parse_airodump_csv (files env (clock s)) (Some path) = (Inr nets, acc)"
    using parse_Inr by blast
  have p1: "parse_airodump_csv (files env (clock ?s1)) (Some path) = (Inr nets, acc)"
    using p by (simp add: stop_airodump_simps)
  have c1: "csv_path ?s1 = Some path" using assms by (simp add: stop_airodump_simps)
  obtain r s' where r: "report env ?s1 = (r, s')" by (cases "report env ?s1")
  have ev: "filter is_report_event (trace s') =
      filter is_report_event (trace s) @
      (if files env (clock s) path = Absent then []
       else if nets = [] then [Print NoNetworks]
       else [Generate_pdf nets (output_dir s) (interface_used s)])"
    using report_events[OF c1 p1] r by (simp add: stop_airodump_simps)
  have "filter is_report_event (trace (finalize env s)) = filter is_report_event (trace s')"
    using r disable_monitor_mode_events[of env]
    by (cases r) (simp_all add: finalize_def Let_def log_def)
  then show ?thesis
    using ev p finalize_shutdown_calls[of env s] finalize_last[of env s] by simp
qed

text \<open>
  On the example host, when the file holds only the header of the access-point table,
  the note is printed and no report is generated.
\<close>

theorem report_iff_records_witness:
  "csv_path ex_session = Some ex_path \<and>
   filter is_report_event (trace (finalize ex_env_no_networks ex_session)) = [Print NoNetworks] \<and>
   last (trace (finalize ex_env_no_networks ex_session)) = Print Done"
proof -
  have c: "csv_path ex_session = Some ex_path" by (simp add: ex_session_def)
  have p: "fst (parse_airodump_csv (files ex_env_no_networks (clock ex_session)) (Some ex_path)) =
      Inr []"
    by (simp add: ex2_defs ex_defs eval_defs)
  have f: "files ex_env_no_networks (clock ex_session) ex_path \<noteq> Absent"
    by (simp add: ex2_defs)
  have t: "trace ex_session = []" by (simp add: ex_session_def)
  show ?thesis
    using report_iff_records[OF c, of ex_env_no_networks] c p f t by auto
qed

text \<open>
  Claim C7 as stated fails: when the capture tool never wrote its file, no record was
  captured, the report is skipped, and no note is printed.
\<close>

theorem report_note_counterexample:
  "fst (parse_airodump_csv (files ex_env_no_file (clock ex_session)) (csv_path ex_session)) = Inr [] \<and>
   Print NoNetworks \<notin> set (trace (finalize ex_env_no_file ex_session)) \<and>
   filter is_report_event (trace (finalize ex_env_no_file ex_session)) = []"
  by (simp add: model_defs ex2_defs ex_defs eval_defs Let_def)

text \<open>
  Claim C8, as the code has it. One iteration of the scan loop checks for the capture
  file. If the file exists it is opened and parsed, and the records are passed to the
  live view only when there is at least one: an empty result is not forwarded. If the
  file does not exist, nothing is parsed or forwarded. Unless the live view raised, the
  iteration ends with the sleep of \<open>REFRESH_SEC\<close> seconds, during which an interrupt runs
  the handler.
\<close>

theorem loop_body_trace:
  assumes "csv_path s = Some path" and "path \<noteq> []"
  shows "\<exists>nets. fst (parse_airodump_csv (files env (clock s)) (Some path)) = Inr nets \<and>
     trace (snd (loop_body env s)) =
       trace s @ [Fs (PathExists path)] @
       (if files env (clock s) path = Absent then []
        else [Fs (PathExists path), Fs (OpenFile path)] @
             (if nets = [] then [] else [Print_live_table nets])) @
       (if files env (clock s) path \<noteq> Absent \<and> nets \<noteq> [] \<and> live_table env (clock s) \<noteq> None
        then []
        else [Sleep REFRESH_SEC] @
             (if sigint env (clock s) then [Call_on_sigint, Print Stopping] else []))"
proof -
  obtain nets acc where p: "parse_airodump_csv (files env (clock s)) (Some path) = (Inr nets, acc)"
    using parse_Inr by blast
  have acc: "files env (clock s) path \<noteq> Absent \<Longrightarrow> acc = [PathExists path, OpenFile path]"
    using p assms(2) by (auto simp: parse_airodump_csv_def split: prod.splits option.splits)
  have "trace (snd (loop_body env s)) =
       trace s @ [Fs (PathExists path)] @
       (if files env (clock s) path = Absent then []
        else [Fs (PathExists path), Fs (OpenFile path)] @
             (if nets = [] then [] else [Print_live_table nets])) @
       (if files env (clock s) path \<noteq> Absent \<and> nets \<noteq> [] \<and> live_table env (clock s) \<noteq> None
        then []
        else [Sleep REFRESH_SEC] @
             (if sigint env (clock s) then [Call_on_sigint, Print Stopping] else []))"
    using assms(1) p acc
    by (auto simp: loop_body_def sleep_poll_def on_sigint_def log_def Let_def
        split: option.splits)
  then show ?thesis using p by simp
qed

text \<open>
  On the example host, at the second poll the file holds two access points: they are
  passed to the live view, and the interrupt comes during the sleep.
\<close>

theorem loop_body_trace_witness:
  "csv_path (ex_session\<lparr>clock := 1\<rparr>) = Some ex_path \<and> ex_path \<noteq> [] \<and>
   trace (snd (loop_body ex_env (ex_session\<lparr>clock := 1\<rparr>))) =
     [Fs (PathExists ex_path), Fs (PathExists ex_path), Fs (OpenFile ex_path),
      Print_live_table [ap_of_row ex_ap_home, ap_of_row ex_ap_hidden],
      Sleep 3, Call_on_sigint, Print Stopping]"
proof -
  have c: "csv_path (ex_session\<lparr>clock := 1\<rparr>) = Some ex_path" by (simp add: ex_session_def)
  have n: "ex_path \<noteq> []" by (simp add: ex_path_def str_def)
  have p: "fst (parse_airodump_csv (files ex_env (clock (ex_session\<lparr>clock := 1\<rparr>))) (Some ex_path)) =
      Inr [ap_of_row ex_ap_home, ap_of_row ex_ap_hidden]"
    by (simp add: ex2_defs ex_defs parse_airodump_csv_def read_ap_table_def py_strip_def
        is_space_def str_def)
  have f: "files ex_env (clock (ex_session\<lparr>clock := 1\<rparr>)) ex_path \<noteq> Absent"
    "live_table ex_env (clock (ex_session\<lparr>clock := 1\<rparr>)) = None"
    "sigint ex_env (clock (ex_session\<lparr>clock := 1\<rparr>))"
    "trace (ex_session\<lparr>clock := 1\<rparr>) = []"
    by (simp_all add: ex2_defs)
  show ?thesis
    using loop_body_trace[OF c n, of ex_env] c n p f by (auto simp: REFRESH_SEC_def)
qed

text \<open>
  Claim C8 as stated fails: when the file holds the header and no access point, the parse
  gives the empty list and the live view is not called in that iteration.
\<close>

theorem empty_snapshot_not_forwarded_counterexample:
  "fst (parse_airodump_csv (files ex_env_no_networks (clock ex_session)) (csv_path ex_session)) =
     Inr [] \<and>
   trace (snd (loop_body ex_env_no_networks ex_session)) =
     [Fs (PathExists ex_path), Fs (PathExists ex_path), Fs (OpenFile ex_path), Sleep 3] \<and>
   Print_live_table [] \<notin> set (trace (snd (loop_body ex_env_no_networks ex_session)))"
  by (simp add: model_defs ex2_defs ex_defs eval_defs Let_def)

text \<open>
  Claim C6, as the code has it. When the interface reports monitor mode, that is, when
  some block of the output of \<open>iw dev\<close> names it with \<open>type monitor\<close>,
  \<open>enable_monitor_mode\<close> returns the interface at once: it runs the query and prints one
  line, and runs no mode-change command. The state is any state, in particular the one a
  first invocation leaves: when the mode change of the first invocation took effect, a
  second invocation changes nothing but the trace and what the query itself does to the
  host.
\<close>

theorem enable_monitor_mode_idempotent:
  assumes "exec env (host s) [str ''iw'', str ''dev''] = (Inr res, h)"
    and "already_monitor iface (stdout res)"
  shows "enable_monitor_mode env iface s =
     (Inr iface,
      s\<lparr>host := h,
        trace := trace s @ [Call_enable_monitor_mode iface, Run [str ''iw'', str ''dev''],
                            Print (AlreadyMonitor iface)]\<rparr>)"
  using assms by (simp add: enable_monitor_mode_def and_then_def run_cmd_def log_def)

text \<open>
  On the example host the first invocation switches \<open>wlan0\<close> to monitor mode with three
  commands, and the second, made in the state the first one leaves, runs only the query.
\<close>

theorem enable_monitor_mode_idempotent_witness:
  "trace (snd (enable_monitor_mode ex_env (str ''wlan0'') (initial Managed))) =
     [Call_enable_monitor_mode (str ''wlan0''), Run [str ''iw'', str ''dev''],
      Print (Enabling (str ''wlan0'')),
      Run [str ''sudo'', str ''ip'', str ''link'', str ''set'', str ''wlan0'', str ''down''],
      Run [str ''sudo'', str ''iw'', str ''wlan0'', str ''set'', str ''type'', str ''monitor''],
      Run [str ''sudo'', str ''ip'', str ''link'', str ''set'', str ''wlan0'', str ''up''],
      Print (Enabled (str ''wlan0''))] \<and>
   enable_monitor_mode ex_env (str ''wlan0'')
       (snd (enable_monitor_mode ex_env (str ''wlan0'') (initial Managed))) =
     (Inr (str ''wlan0''),
      (snd (enable_monitor_mode ex_env (str ''wlan0'') (initial Managed)))
        \<lparr>host := Monitor,
         trace := trace (snd (enable_monitor_mode ex_env (str ''wlan0'') (initial Managed))) @
           [Call_enable_monitor_mode (str ''wlan0''), Run [str ''iw'', str ''dev''],
            Print (AlreadyMonitor (str ''wlan0''))]\<rparr>)"
proof -
  let ?s1 = "snd (enable_monitor_mode ex_env (str ''wlan0'') (initial Managed))"
  have first: "trace ?s1 =
     [Call_enable_monitor_mode (str ''wlan0''), Run [str ''iw'', str ''dev''],
      Print (Enabling (str ''wlan0'')),
      Run [str ''sudo'', str ''ip'', str ''link'', str ''set'', str ''wlan0'', str ''down''],
      Run [str ''sudo'', str ''iw'', str ''wlan0'', str ''set'', str ''type'', str ''monitor''],
      Run [str ''sudo'', str ''ip'', str ''link'', str ''set'', str ''wlan0'', str ''up''],
      Print (Enabled (str ''wlan0''))]"
    and h: "host ?s1 = Monitor"
    by (simp_all add: model_defs ex2_defs eval_defs)
  have q: "exec ex_env (host ?s1) [str ''iw'', str ''dev''] =
      (Inr \<lparr>returncode = 0, stdout = ex_iw_dev Monitor\<rparr>, Monitor)"
    unfolding h by (simp add: ex_env_def ex_exec_def)
  have m: "already_monitor (str ''wlan0'') (stdout \<lparr>returncode = 0, stdout = ex_iw_dev Monitor\<rparr>)"
    by (simp add: already_monitor_def starts_interface_def ex_iw_dev_def py_strip_def
        is_space_def str_def)
  show ?thesis
    using enable_monitor_mode_idempotent[OF q m] first by simp
qed

text \<open>
  Claim C6 as stated fails: on the host that refuses the mode change, the interface still
  reports managed mode after the first invocation, and the second invocation runs the
  mode-change commands again.
\<close>

theorem enable_monitor_mode_repeats_counterexample:
  "trace (snd (enable_monitor_mode ex_env_denied (str ''wlan0'')
      (snd (enable_monitor_mode ex_env_denied (str ''wlan0'') (initial Managed))))) =
     [Call_enable_monitor_mode (str ''wlan0''), Run [str ''iw'', str ''dev''],
      Print (Enabling (str ''wlan0'')),
      Run [str ''sudo'', str ''ip'', str ''link'', str ''set'', str ''wlan0'', str ''down''],
      Run [str ''sudo'', str ''iw'', str ''wlan0'', str ''set'', str ''type'', str ''monitor''],
      Run [str ''sudo'', str ''iw'', str ''wlan0'', str ''set'', str ''monitor'', str ''none''],
      Run [str ''sudo'', str ''ip'', str ''link'', str ''set'', str ''wlan0'', str ''up''],
      Print (Enabled (str ''wlan0'')),
      Call_enable_monitor_mode (str ''wlan0''), Run [str ''iw'', str ''dev''],
      Print (Enabling (str ''wlan0'')),
      Run [str ''sudo'', str ''ip'', str ''link'', str ''set'', str ''wlan0'', str ''down''],
      Run [str ''sudo'', str ''iw'', str ''wlan0'', str ''set'', str ''type'', str ''monitor''],
      Run [str ''sudo'', str ''iw'', str ''wlan0'', str ''set'', str ''monitor'', str ''none''],
      Run [str ''sudo'', str ''ip'', str ''link'', str ''set'', str ''wlan0'', str ''up''],
      Print (Enabled (str ''wlan0''))]"
  by (simp add: model_defs ex2_defs eval_defs)

subsection \<open>A whole run\<close>

text \<open>
  The whole of \<open>main\<close> on the example host, from the module's initial state: the scan is
  interrupted during the second sleep, the report generator raises, its failure is
  printed, and the run still stops the capture once, restores the interface once (the
  host is back in managed mode) and returns normally after the line \<open>Done\<close>.
\<close>

lemma main_example_run:
  "map_option
     (\<lambda>(r, s). (r, host s, filter is_shutdown_call (trace s),
        Print (PdfFailed (Exception ''PermissionError'')) \<in> set (trace s), last (trace s)))
     (main ex_env (initial Managed)) =
   Some (Inr (), Managed,
     [Call_stop_airodump, Call_disable_monitor_mode (Some (str ''wlan0''))], True, Print Done)"
  by (simp add: model_defs ex2_defs ex_defs eval_defs scan_loop.simps Let_def)

end
